theory Spec2Isabelle
  imports Complex_Main
begin

section \<open>Numbers, errors and rounding\<close>

text \<open>
  The script \<^verbatim>\<open>chiller_analyzer_pro.py\<close> computes with Python floats (the values of
  \<^verbatim>\<open>st.number_input\<close>) and Python ints (the values of \<^verbatim>\<open>st.slider\<close> with integer
  bounds). The script is read twice. In the first reading floats are real numbers and
  every formula is the source's formula in exact arithmetic; it serves the statements that
  do not depend on how a double rounds. The second reading, further down, rounds every
  result to the nearest double and serves the statements that rounding, underflow or
  cancellation decide. Slider values are \<open>int\<close>. A division whose divisor is
  zero raises \<^verbatim>\<open>ZeroDivisionError\<close> in Python and ends the pass; an index past the end of
  a list raises \<^verbatim>\<open>IndexError\<close>. Both are values of the model.

  The calls that only show a value (\<^verbatim>\<open>st.success\<close>, \<^verbatim>\<open>st.write\<close>, the two
  charts) and the PDF export behind its button compute nothing that a later line reads;
  of these the model keeps the recommendation messages and the hourly rows.
\<close>

datatype py_error = ZeroDivisionError | IndexError

text \<open>
  \<^verbatim>\<open>round(x, n)\<close> rounds to \<open>n\<close> decimals, a tie going to the even neighbour.
\<close>

definition round_half_even :: "real \<Rightarrow> int" where
  "round_half_even y =
     (let f = \<lfloor>y\<rfloor>; d = y - of_int f
      in if d < 1 / 2 then f
         else if 1 / 2 < d then f + 1
         else if even f then f else f + 1)"

definition py_round :: "real \<Rightarrow> nat \<Rightarrow> real" where
  "py_round x ndigits = of_int (round_half_even (x * 10 ^ ndigits)) / 10 ^ ndigits"

section \<open>Chiller inputs and derived metrics (lines 15-43)\<close>

datatype unit_system = SI | I_P

text \<open>One entry of \<^verbatim>\<open>chiller_data\<close>: the dictionary appended at lines 35-42.\<close>

record chiller =
  Name :: string
  Capacity :: real
  Power :: real
  COP :: real
  EER :: real
  kW_Ton :: real

text \<open>
  Lines 27-34: the full-precision \<^verbatim>\<open>(cop, eer, kw_per_ton)\<close> of one chiller. The
  divisions are taken in the order the source takes them.
\<close>

definition chiller_metrics :: "unit_system \<Rightarrow> real \<Rightarrow> real \<Rightarrow> py_error + (real \<times> real \<times> real)" where
  "chiller_metrics us cap power_in =
     (if us = I_P then
        (if power_in * 1000 = 0 then Inl ZeroDivisionError
         else let eer = (cap * 12000) / (power_in * 1000);
                  cop = eer / 3.412
              in if cap = 0 then Inl ZeroDivisionError
                 else Inr (cop, eer, power_in / cap))
      else
        (if power_in = 0 then Inl ZeroDivisionError
         else let cop = cap / power_in;
                  eer = cop * 3.412
              in if cop = 0 then Inl ZeroDivisionError
                 else Inr (cop, eer, 3.5 / cop)))"

text \<open>Lines 35-42: the dictionary stores the three metrics rounded to 2 decimals.\<close>

definition chiller_entry :: "string \<Rightarrow> real \<Rightarrow> real \<Rightarrow> real \<times> real \<times> real \<Rightarrow> chiller" where
  "chiller_entry name cap power_in m =
     (case m of (cop, eer, kw_per_ton) \<Rightarrow>
        \<lparr>Name = name, Capacity = cap, Power = power_in,
         COP = py_round cop 2, EER = py_round eer 2, kW_Ton = py_round kw_per_ton 2\<rparr>)"

text \<open>
  Lines 22-43: the loop over the chiller widgets, appending to \<^verbatim>\<open>chiller_data\<close>. The
  widget values are the list of \<open>(name, cap, power_in)\<close>, where \<open>power_in\<close> is the
  source's \<^verbatim>\<open>power\<close>; the slider gives 1 to 5 of them.
\<close>

fun chiller_loop :: "unit_system \<Rightarrow> (string \<times> real \<times> real) list \<Rightarrow> chiller list
                      \<Rightarrow> py_error + chiller list" where
  "chiller_loop us [] chiller_data = Inr chiller_data"
| "chiller_loop us ((name, cap, power_in) # rest) chiller_data =
     (case chiller_metrics us cap power_in of
        Inl e \<Rightarrow> Inl e
      | Inr m \<Rightarrow> chiller_loop us rest (chiller_data @ [chiller_entry name cap power_in m]))"

section \<open>Pump and cooling tower (lines 45-66)\<close>

definition pump_efficiency :: "unit_system \<Rightarrow> real \<Rightarrow> real \<Rightarrow> real \<Rightarrow> py_error + real" where
  "pump_efficiency us flow head pump_power =
     (let density = (if us = SI then 1000 else 62.4 * 1.3558);
          g = (if us = SI then 9.81 else 32.174);
          hydraulic_power = flow * head * density * g / 1000
      in if pump_power = 0 then Inl ZeroDivisionError
         else Inr ((hydraulic_power / pump_power) * 100))"

text \<open>Lines 63-65: \<^verbatim>\<open>(CT_range, approach, effectiveness)\<close>.\<close>

definition cooling_tower :: "real \<Rightarrow> real \<Rightarrow> real \<Rightarrow> py_error + (real \<times> real \<times> real)" where
  "cooling_tower cw_in cw_out wet_bulb =
     (let CT_range = cw_in - cw_out;
          approach = cw_out - wet_bulb
      in if CT_range + approach = 0 then Inl ZeroDivisionError
         else Inr (CT_range, approach, CT_range / (CT_range + approach)))"

section \<open>Recommendations (lines 68-78)\<close>

datatype message = warning string | info string

definition chiller_recommendation :: "chiller \<Rightarrow> message" where
  "chiller_recommendation c =
     (if COP c < 3.5
      then warning (Name c @ '' may benefit from maintenance or load redistribution.'')
      else info (Name c @ '' is operating efficiently.''))"

definition recommendations :: "chiller list \<Rightarrow> string \<Rightarrow> real \<Rightarrow> string \<Rightarrow> real \<Rightarrow> message list" where
  "recommendations chiller_data pump_name pump_eff tower_name effectiveness =
     map chiller_recommendation chiller_data
     @ (if pump_eff < 60 then [warning (pump_name @ '' has low efficiency.'')] else [])
     @ (if effectiveness < 0.5 then [warning (tower_name @ '' has low effectiveness.'')] else [])"

section \<open>Simulated load profile (lines 80-91)\<close>

text \<open>\<^verbatim>\<open>datetime(2025, 7, 25, hour).strftime("%H:%M")\<close> for an hour below 24.\<close>

definition strftime_HM :: "nat \<Rightarrow> string" where
  "strftime_HM hour =
     [''0123456789'' ! (hour div 10), ''0123456789'' ! (hour mod 10)] @ '':00''"

definition load_factor :: "int \<Rightarrow> real" where
  "load_factor hour = 0.6 + 0.4 * exp (- (of_int ((hour - 14) ^ 2)) / 20)"

definition temp_factor :: "int \<Rightarrow> real" where
  "temp_factor ambient_temp = 1 + of_int (ambient_temp - 30) * 0.02"

text \<open>
  The loop of lines 86-91 over \<^verbatim>\<open>range(24)\<close>, appending to \<^verbatim>\<open>timestamps\<close> and
  \<^verbatim>\<open>profile\<close>; the state is the pair of lists.
\<close>

fun profile_loop :: "int \<Rightarrow> int \<Rightarrow> nat list \<Rightarrow> string list \<times> real list \<Rightarrow> string list \<times> real list" where
  "profile_loop base_load ambient_temp [] st = st"
| "profile_loop base_load ambient_temp (hour # hours) (timestamps, profile) =
     profile_loop base_load ambient_temp hours
       (timestamps @ [strftime_HM hour],
        profile @ [py_round (of_int base_load * load_factor (int hour) * temp_factor ambient_temp) 2])"

section \<open>Chiller sequencing (lines 101-122)\<close>

type_synonym assignment = "string \<times> real \<times> real"

text \<open>
  Lines 109-119: the inner loop for one load. The state is
  \<^verbatim>\<open>(active_chillers, remaining_load)\<close>; \<^verbatim>\<open>break\<close> returns it as it is.
\<close>

fun sequencing_loop :: "chiller list \<Rightarrow> assignment list \<times> real \<Rightarrow> assignment list \<times> real" where
  "sequencing_loop [] st = st"
| "sequencing_loop (c # rest) (active_chillers, remaining_load) =
     (if remaining_load \<le> 0 then (active_chillers, remaining_load)
      else let cap = Capacity c; cop = COP c
           in if cap \<le> remaining_load
              then sequencing_loop rest
                     (active_chillers @ [(Name c, cap, cop)], remaining_load - cap)
              else sequencing_loop rest
                     (active_chillers @ [(Name c, remaining_load, cop)], 0))"

text \<open>Lines 107-119 for one load: both variables are initialised, then the loop runs.\<close>

definition allocate :: "real \<Rightarrow> chiller list \<Rightarrow> assignment list \<times> real" where
  "allocate load chiller_data = sequencing_loop chiller_data ([], load)"

type_synonym allocation_record = "string \<times> real \<times> assignment list"

text \<open>
  Lines 106-122: the outer loop over \<^verbatim>\<open>enumerate(profile)\<close>. Each hour writes its
  timestamp \<^verbatim>\<open>timestamps[i]\<close>, its load and its active chillers.
\<close>

fun sequencing_rows :: "chiller list \<Rightarrow> string list \<Rightarrow> (nat \<times> real) list
                         \<Rightarrow> py_error + allocation_record list" where
  "sequencing_rows chiller_data timestamps [] = Inr []"
| "sequencing_rows chiller_data timestamps ((i, load) # rest) =
     (let active_chillers = fst (allocate load chiller_data)
      in if i < length timestamps
         then (case sequencing_rows chiller_data timestamps rest of
                 Inl e \<Rightarrow> Inl e
               | Inr rows \<Rightarrow> Inr ((timestamps ! i, load, active_chillers) # rows))
         else Inl IndexError)"

definition total_capacity :: "chiller list \<Rightarrow> real" where
  "total_capacity chiller_data = sum_list (map Capacity chiller_data)"

section \<open>COP against load (lines 124-130)\<close>

definition cop_vals :: "chiller \<Rightarrow> real list" where
  "cop_vals c = map (\<lambda>l. COP c * (1 - 0.1 * (1 - l / 100))) [25, 50, 75, 100]"

section \<open>One pass of the script\<close>

text \<open>The values of the input widgets.\<close>

record widgets =
  w_unit_system :: unit_system
  w_chillers :: "(string \<times> real \<times> real) list"
  w_pump_name :: string
  w_flow :: real
  w_head :: real
  w_pump_power :: real
  w_tower_name :: string
  w_cw_in :: real
  w_cw_out :: real
  w_wet_bulb :: real
  w_base_load :: int
  w_ambient_temp :: int

text \<open>
  The list variables the script appends to. A pass receives them as an earlier pass left
  them and assigns \<^verbatim>\<open>[]\<close> to each one before its loop (lines 21, 84 and 85).
\<close>

record script_vars =
  chiller_data_var :: "chiller list"
  timestamps_var :: "string list"
  profile_var :: "real list"

text \<open>What a pass shows: the messages, the total capacity, the hourly rows, the COP curves.\<close>

record pass_output =
  o_pump_eff :: real
  o_tower :: "real \<times> real \<times> real"
  o_messages :: "message list"
  o_total_capacity :: real
  o_rows :: "allocation_record list"
  o_cop_curves :: "real list list"

definition run_script :: "widgets \<Rightarrow> script_vars \<Rightarrow> py_error + (pass_output \<times> script_vars)" where
  "run_script w vars0 =
     (let vars1 = vars0\<lparr>chiller_data_var := []\<rparr>
      in case chiller_loop (w_unit_system w) (w_chillers w) (chiller_data_var vars1) of
           Inl e \<Rightarrow> Inl e
         | Inr cd \<Rightarrow>
      (let vars2 = vars1\<lparr>chiller_data_var := cd\<rparr>
       in case pump_efficiency (w_unit_system w) (w_flow w) (w_head w) (w_pump_power w) of
            Inl e \<Rightarrow> Inl e
          | Inr pump_eff \<Rightarrow>
       (case cooling_tower (w_cw_in w) (w_cw_out w) (w_wet_bulb w) of
            Inl e \<Rightarrow> Inl e
          | Inr tower \<Rightarrow>
        (let msgs = recommendations (chiller_data_var vars2) (w_pump_name w) pump_eff
                      (w_tower_name w) (snd (snd tower));
             vars3 = vars2\<lparr>profile_var := [], timestamps_var := []\<rparr>;
             st = profile_loop (w_base_load w) (w_ambient_temp w) [0..<24]
                    (timestamps_var vars3, profile_var vars3);
             vars4 = vars3\<lparr>timestamps_var := fst st, profile_var := snd st\<rparr>
         in case sequencing_rows (chiller_data_var vars4) (timestamps_var vars4)
                   (enumerate 0 (profile_var vars4)) of
              Inl e \<Rightarrow> Inl e
            | Inr rows \<Rightarrow>
                Inr (\<lparr>o_pump_eff = pump_eff, o_tower = tower, o_messages = msgs,
                      o_total_capacity = total_capacity (chiller_data_var vars4),
                      o_rows = rows,
                      o_cop_curves = map cop_vals (chiller_data_var vars4)\<rparr>,
                     vars4)))))"

section \<open>The allocation as the specification words it\<close>

text \<open>
  The specification describes the allocator by its steps: with nothing left to place it
  stops; a chiller whose capacity fits into what remains takes its full capacity and the
  rest goes on to the next chiller; otherwise the chiller takes what remains and the call
  is over. \<open>spec_allocate\<close> follows these words, not the loop, and is compared with
  \<open>allocate\<close> below.
\<close>

fun spec_allocate :: "real \<Rightarrow> chiller list \<Rightarrow> assignment list \<times> real" where
  "spec_allocate remaining [] = ([], remaining)"
| "spec_allocate remaining (c # cs) =
     (if remaining \<le> 0 then ([], remaining)
      else if Capacity c \<le> remaining
           then (let r = spec_allocate (remaining - Capacity c) cs
                 in ((Name c, Capacity c, COP c) # fst r, snd r))
           else ([(Name c, remaining, COP c)], 0))"


text \<open>A chiller entry as the default widget values give it under SI (capacity 100, power 60).\<close>

definition chiller_100 :: "string \<Rightarrow> chiller" where
  "chiller_100 name =
     \<lparr>Name = name, Capacity = 100, Power = 60, COP = 1.67, EER = 5.69, kW_Ton = 2.1\<rparr>"

text \<open>Lines 84-91: both lists start empty and the loop runs over \<^verbatim>\<open>range(24)\<close>.\<close>

definition simulate_profile :: "int \<Rightarrow> int \<Rightarrow> string list \<times> real list" where
  "simulate_profile base_load ambient_temp =
     profile_loop base_load ambient_temp [0..<24] ([], [])"

text \<open>The widgets as the script initialises them (the \<^verbatim>\<open>value=\<close> defaults, two chillers).\<close>

definition default_widgets :: widgets where
  "default_widgets =
     \<lparr>w_unit_system = SI,
      w_chillers = [(''Chiller 1'', 100, 60), (''Chiller 2'', 100, 60)],
      w_pump_name = ''Main Pump'', w_flow = 0.02, w_head = 30, w_pump_power = 6,
      w_tower_name = ''CT Unit 1'', w_cw_in = 35, w_cw_out = 30, w_wet_bulb = 28,
      w_base_load = 600, w_ambient_temp = 35\<rparr>"

section \<open>Double precision\<close>

text \<open>
  Where the outcome of a line depends on how a double rounds, the line is read again in
  binary64 arithmetic. \<open>fl x\<close> is the double nearest to the real \<open>x\<close>, a tie going to the
  even significand: the exponent is that of \<open>x\<close> but not below -1022, the significand has
  53 bits, so the doubles near \<open>x\<close> are the multiples of 2 to the power of the exponent
  minus 52. Below 2 to the power -1022 these are the multiples of 2 to the power -1074,
  and a value of at most 2 to the power -1075 rounds to 0. The IEEE operations
  \<^verbatim>\<open>+ - * /\<close> on finite doubles return \<open>fl\<close> of the exact result.
\<close>

definition fl :: "real \<Rightarrow> real" where
  "fl x = (let e = max \<lfloor>log 2 \<bar>x\<bar>\<rfloor> (- 1022); q = 2 powi (e - 52)
           in of_int (round_half_even (x / q)) * q)"

text \<open>
  A result of magnitude 2 to the power 1024 or more is an infinity in Python. Arithmetic
  on an infinity raises nothing, and in the lines read here no exception can follow one;
  this reading does not follow infinities and ends with \<open>NonFinite\<close>.
\<close>

datatype outcome = Raises py_error | NonFinite

definition to_double :: "real \<Rightarrow> outcome + real" where
  "to_double x = (if \<bar>fl x\<bar> < 2 ^ 1024 then Inr (fl x) else Inl NonFinite)"


text \<open>
  Lines 32-34 in double arithmetic, and the entry of lines 35-42 for them. The literal
  \<^verbatim>\<open>3.412\<close> is the double nearest to it, \<^verbatim>\<open>3.5\<close> is a double. The builtin
  \<^verbatim>\<open>round(x, 2)\<close> rounds the exact value of the double \<open>x\<close> to 2 decimals and returns
  the double nearest to that decimal.
\<close>

definition si_metrics_double :: "real \<Rightarrow> real \<Rightarrow> outcome + (real \<times> real \<times> real)" where
  "si_metrics_double cap power_in =
     (if power_in = 0 then Inl (Raises ZeroDivisionError)
      else (case to_double (cap / power_in) of
              Inl out \<Rightarrow> Inl out
            | Inr cop \<Rightarrow>
           (case to_double (cop * fl 3.412) of
              Inl out \<Rightarrow> Inl out
            | Inr eer \<Rightarrow>
                if cop = 0 then Inl (Raises ZeroDivisionError)
                else (case to_double (3.5 / cop) of
                        Inl out \<Rightarrow> Inl out
                      | Inr kw_per_ton \<Rightarrow> Inr (cop, eer, kw_per_ton)))))"

definition si_chiller_double :: "string \<Rightarrow> real \<Rightarrow> real \<Rightarrow> outcome + chiller" where
  "si_chiller_double name cap power_in =
     (case si_metrics_double cap power_in of
        Inl out \<Rightarrow> Inl out
      | Inr (cop, eer, kw_per_ton) \<Rightarrow>
     (case to_double (py_round cop 2) of
        Inl out \<Rightarrow> Inl out
      | Inr cop2 \<Rightarrow>
     (case to_double (py_round eer 2) of
        Inl out \<Rightarrow> Inl out
      | Inr eer2 \<Rightarrow>
     (case to_double (py_round kw_per_ton 2) of
        Inl out \<Rightarrow> Inl out
      | Inr kw2 \<Rightarrow>
          Inr \<lparr>Name = name, Capacity = cap, Power = power_in,
               COP = cop2, EER = eer2, kW_Ton = kw2\<rparr>))))"

section \<open>The sequencing loop and the specification's allocator\<close>

lemma sequencing_loop_stop: "r \<le> 0 \<Longrightarrow> sequencing_loop cs (acc, r) = (acc, r)"
  by (cases cs) simp_all

lemma spec_allocate_stop: "r \<le> 0 \<Longrightarrow> spec_allocate r cs = ([], r)"
  by (cases cs) simp_all

lemma sequencing_loop_spec:
  "sequencing_loop cs (acc, r) = (acc @ fst (spec_allocate r cs), snd (spec_allocate r cs))"
proof (induction cs arbitrary: acc r)
  case Nil
  show ?case by simp
next
  case (Cons c cs)
  show ?case
    by (simp add: Let_def Cons.IH sequencing_loop_stop spec_allocate_stop)
qed

lemma allocate_spec: "allocate d cs = spec_allocate d cs"
  by (simp add: allocate_def sequencing_loop_spec)


lemma spec_allocate_shape:
  "0 \<le> r \<Longrightarrow> \<forall>c\<in>set cs. 0 < Capacity c \<Longrightarrow>
   length (fst (spec_allocate r cs)) \<le> length cs
   \<and> list_all2 (\<lambda>entry c. fst entry = Name c \<and> snd (snd entry) = COP c
                       \<and> 0 < fst (snd entry) \<and> fst (snd entry) \<le> Capacity c)
        (fst (spec_allocate r cs)) (take (length (fst (spec_allocate r cs))) cs)
   \<and> list_all2 (\<lambda>entry c. fst (snd entry) = Capacity c)
        (butlast (fst (spec_allocate r cs))) (take (length (fst (spec_allocate r cs)) - 1) cs)"
proof (induction cs arbitrary: r)
  case Nil
  then show ?case by simp
next
  case (Cons c cs)
  show ?case
  proof (cases "r \<le> 0")
    case True
    then show ?thesis by simp
  next
    case pos: False
    show ?thesis
    proof (cases "Capacity c \<le> r")
      case True
      then have "0 \<le> r - Capacity c" by simp
      from Cons.IH[OF this] Cons.prems(2) True pos show ?thesis
        by (cases "fst (spec_allocate (r - Capacity c) cs)") (auto simp: Let_def)
    next
      case False
      with Cons.prems pos show ?thesis
        by (auto simp: Let_def)
    qed
  qed
qed

text \<open>
  Claim C1. For every demand and every non-empty list of chillers, the sequencing loop
  started with \<open>remaining_load = d\<close> and no active chillers returns what the
  specification's allocator returns: chillers are taken in input order, the loop stops
  once nothing remains, a chiller whose capacity fits takes its capacity, and otherwise
  it takes the remainder, which becomes 0. For two chillers of capacity 100, demand 150
  gives 100 and 50, demand 250 gives 100 and 100 with 50 left over, and demand 0 gives no
  assignment.
\<close>

theorem sequencing_allocator_algorithm:
  assumes "chillers \<noteq> []" and "Capacity c1 = 100" and "Capacity c2 = 100"
  shows "allocate d chillers = spec_allocate d chillers
       \<and> allocate 150 [c1, c2] = ([(Name c1, 100, COP c1), (Name c2, 50, COP c2)], 0)
       \<and> allocate 250 [c1, c2] = ([(Name c1, 100, COP c1), (Name c2, 100, COP c2)], 50)
       \<and> allocate 0 [c1, c2] = ([], 0)"
  using assms by (simp add: allocate_def sequencing_loop_spec)

theorem sequencing_allocator_algorithm_witness:
  "[chiller_100 ''c1'', chiller_100 ''c2''] \<noteq> []
   \<and> Capacity (chiller_100 ''c1'') = 100 \<and> Capacity (chiller_100 ''c2'') = 100
   \<and> allocate 150 [chiller_100 ''c1'', chiller_100 ''c2'']
       = ([(''c1'', 100, 1.67), (''c2'', 50, 1.67)], 0)
   \<and> allocate 120 [chiller_100 ''c1'', chiller_100 ''c2'']
       = spec_allocate 120 [chiller_100 ''c1'', chiller_100 ''c2'']"
  using sequencing_allocator_algorithm
          [of "[chiller_100 ''c1'', chiller_100 ''c2'']" "chiller_100 ''c1''" "chiller_100 ''c2''" 120]
  by (simp add: chiller_100_def)

section \<open>Invariants of an allocation\<close>



text \<open>
  Claim C10. For a demand \<open>d \<ge> 0\<close> and chillers of positive capacity, the active
  chillers are the first chillers of the list in input order (same names and COP values),
  each assigned load is positive and at most the chiller's capacity, and every assignment
  but the last is the chiller's full capacity.
\<close>

theorem allocation_prefix_shape:
  assumes "0 \<le> d" and "\<forall>c\<in>set chillers. 0 < Capacity c"
  shows "length (fst (allocate d chillers)) \<le> length chillers
       \<and> (\<forall>i < length (fst (allocate d chillers)).
              fst (fst (allocate d chillers) ! i) = Name (chillers ! i)
            \<and> snd (snd (fst (allocate d chillers) ! i)) = COP (chillers ! i)
            \<and> 0 < fst (snd (fst (allocate d chillers) ! i))
            \<and> fst (snd (fst (allocate d chillers) ! i)) \<le> Capacity (chillers ! i))
       \<and> (\<forall>i. Suc i < length (fst (allocate d chillers)) \<longrightarrow>
              fst (snd (fst (allocate d chillers) ! i)) = Capacity (chillers ! i))"
proof -
  let ?active = "fst (allocate d chillers)"
  let ?n = "length ?active"
  from spec_allocate_shape [OF assms]
  have len: "?n \<le> length chillers"
    and each: "list_all2 (\<lambda>entry c. fst entry = Name c \<and> snd (snd entry) = COP c
                       \<and> 0 < fst (snd entry) \<and> fst (snd entry) \<le> Capacity c)
                 ?active (take ?n chillers)"
    and full: "list_all2 (\<lambda>entry c. fst (snd entry) = Capacity c)
                 (butlast ?active) (take (?n - 1) chillers)"
    by (simp_all add: allocate_spec)
  have a: "\<forall>i < ?n. fst (?active ! i) = Name (chillers ! i)
            \<and> snd (snd (?active ! i)) = COP (chillers ! i)
            \<and> 0 < fst (snd (?active ! i))
            \<and> fst (snd (?active ! i)) \<le> Capacity (chillers ! i)"
    using each by (auto simp: list_all2_conv_all_nth)
  have b: "\<forall>i. Suc i < ?n \<longrightarrow> fst (snd (?active ! i)) = Capacity (chillers ! i)"
  proof (intro allI impI)
    fix i assume i: "Suc i < ?n"
    then have "i < length (butlast ?active)" by simp
    with full have "fst (snd (butlast ?active ! i)) = Capacity (take (?n - 1) chillers ! i)"
      by (auto simp: list_all2_conv_all_nth)
    with i show "fst (snd (?active ! i)) = Capacity (chillers ! i)"
      by (simp add: nth_butlast)
  qed
  from len a b show ?thesis by blast
qed

theorem allocation_prefix_shape_witness:
  "(0::real) \<le> 150
   \<and> 0 < Capacity (chiller_100 ''c1'') \<and> 0 < Capacity (chiller_100 ''c2'')
   \<and> length (fst (allocate 150 [chiller_100 ''c1'', chiller_100 ''c2''])) = 2
   \<and> fst (fst (allocate 150 [chiller_100 ''c1'', chiller_100 ''c2'']) ! 1) = ''c2''
   \<and> fst (snd (fst (allocate 150 [chiller_100 ''c1'', chiller_100 ''c2'']) ! 1)) = 50
   \<and> fst (snd (fst (allocate 150 [chiller_100 ''c1'', chiller_100 ''c2'']) ! 0)) = 100"
  using allocation_prefix_shape [of 150 "[chiller_100 ''c1'', chiller_100 ''c2'']"]
  by (simp add: chiller_100_def allocate_def Let_def)

section \<open>Rounding to two decimals\<close>

lemma round_half_even_of_int: "round_half_even (of_int k) = k"
  by (simp add: round_half_even_def)

lemma round_half_even_near: "\<bar>of_int (round_half_even y) - y\<bar> \<le> 1 / 2"
  unfolding round_half_even_def Let_def by (auto simp: abs_if) linarith+

lemma py_round_of_int: "py_round (of_int k) n = of_int k"
proof -
  have "(of_int k :: real) * 10 ^ n = of_int (k * 10 ^ n)" by simp
  then have "round_half_even (of_int k * 10 ^ n) = k * 10 ^ n"
    by (simp only: round_half_even_of_int)
  then show ?thesis by (simp add: py_round_def)
qed

lemma py_round_2_near: "\<bar>py_round x 2 - x\<bar> \<le> 1 / 200"
proof -
  have "\<bar>of_int (round_half_even (x * 100)) - x * 100\<bar> \<le> 1 / 2"
    by (rule round_half_even_near)
  then show ?thesis by (simp add: py_round_def abs_if split: if_splits) 
qed

lemma py_round_2_grid: "\<exists>k::int. py_round x 2 = of_int k / 100"
  by (auto simp: py_round_def)

section \<open>The simulated load profile\<close>

lemma profile_loop_map:
  "profile_loop b a hs (ts, prof) =
     (ts @ map strftime_HM hs,
      prof @ map (\<lambda>h. py_round (of_int b * load_factor (int h) * temp_factor a) 2) hs)"
  by (induction hs arbitrary: ts prof) simp_all

text \<open>
  Claim C5. For every base load and ambient temperature (both slider integers), the
  simulation yields 24 timestamps and 24 demands, one per hour \<open>h\<close> from 0 to 23, the
  demand of hour \<open>h\<close> being the product of the base load, the load factor
  \<open>0.6 + 0.4 * exp (- (h - 14)\<^sup>2 / 20)\<close> and the temperature factor
  \<open>1 + (ambient_temp - 30) * 0.02\<close>, rounded to 2 decimals; at hour 14 and 30 degrees the
  demand is the base load itself.
\<close>

theorem load_profile_24_points:
  "length (fst (simulate_profile base_load ambient_temp)) = 24
   \<and> length (snd (simulate_profile base_load ambient_temp)) = 24
   \<and> (\<forall>h<24. snd (simulate_profile base_load ambient_temp) ! h =
          py_round (of_int base_load
                    * (0.6 + 0.4 * exp (- (of_int ((int h - 14) ^ 2)) / 20))
                    * (1 + (of_int ambient_temp - 30) * 0.02)) 2
        \<and> fst (simulate_profile base_load ambient_temp) ! h = strftime_HM h)
   \<and> snd (simulate_profile base_load 30) ! 14 = of_int base_load"
proof -
  have nth: "snd (simulate_profile b a) ! h
               = py_round (of_int b * load_factor (int h) * temp_factor a) 2
             \<and> fst (simulate_profile b a) ! h = strftime_HM h"
    if "h < 24" for b a h
    using that by (simp add: simulate_profile_def profile_loop_map del: upt_Suc)
  have peak: "load_factor 14 = 1" "temp_factor 30 = 1"
    by (simp_all add: load_factor_def temp_factor_def)
  have "snd (simulate_profile base_load 30) ! 14 = py_round (of_int base_load) 2"
    using nth [of 14 base_load 30] by (simp add: peak)
  then have at14: "snd (simulate_profile base_load 30) ! 14 = of_int base_load"
    by (simp only: py_round_of_int)
  have len: "length (fst (simulate_profile base_load ambient_temp)) = 24"
    "length (snd (simulate_profile base_load ambient_temp)) = 24"
    by (simp_all add: simulate_profile_def profile_loop_map del: upt_Suc)
  from len at14 nth show ?thesis
    by (simp add: load_factor_def temp_factor_def)
qed

theorem load_profile_24_points_witness:
  "(14::nat) < 24 \<and> snd (simulate_profile 600 30) ! 14 = 600
   \<and> fst (simulate_profile 600 30) ! 14 = ''14:00''"
  using load_profile_24_points [of 600 30]
  by (simp add: strftime_HM_def)

section \<open>Chiller metrics, recommendations and the cooling tower\<close>

text \<open>
  Claim C7. A chiller gets the maintenance and load-redistribution warning exactly when
  its \<^verbatim>\<open>COP\<close> entry is below 3.5, and the message that it operates efficiently
  otherwise; 3.4 warns, 3.5 does not. The messages of the chillers come first in the
  list of recommendations, one per chiller in order.
\<close>

theorem recommendation_threshold:
  "((\<exists>text. chiller_recommendation c = warning text) \<longleftrightarrow> COP c < 3.5)
   \<and> (COP c < 3.5 \<longrightarrow> chiller_recommendation c
          = warning (Name c @ '' may benefit from maintenance or load redistribution.''))
   \<and> (\<not> COP c < 3.5 \<longrightarrow> chiller_recommendation c
          = info (Name c @ '' is operating efficiently.''))
   \<and> (COP c = 3.4 \<longrightarrow> (\<exists>text. chiller_recommendation c = warning text))
   \<and> (COP c = 3.5 \<longrightarrow> (\<exists>text. chiller_recommendation c = info text))
   \<and> (\<forall>i < length chiller_data.
         recommendations chiller_data pump_name pump_eff tower_name effectiveness ! i
           = chiller_recommendation (chiller_data ! i))"
  by (simp add: chiller_recommendation_def recommendations_def nth_append)

theorem recommendation_threshold_witness:
  "COP (chiller_100 ''c1''\<lparr>COP := 3.4\<rparr>) < 3.5
   \<and> chiller_recommendation (chiller_100 ''c1''\<lparr>COP := 3.4\<rparr>)
       = warning ''c1 may benefit from maintenance or load redistribution.''
   \<and> \<not> COP (chiller_100 ''c2''\<lparr>COP := 3.5\<rparr>) < 3.5
   \<and> chiller_recommendation (chiller_100 ''c2''\<lparr>COP := 3.5\<rparr>)
       = info ''c2 is operating efficiently.''
   \<and> (0::nat) < length [chiller_100 ''c1''\<lparr>COP := 3.4\<rparr>]
   \<and> recommendations [chiller_100 ''c1''\<lparr>COP := 3.4\<rparr>] ''Main Pump'' 98.1 ''CT Unit 1'' (5 / 7) ! 0
       = warning ''c1 may benefit from maintenance or load redistribution.''"
  using recommendation_threshold [of "chiller_100 ''c1''\<lparr>COP := 3.4\<rparr>"
          "[chiller_100 ''c1''\<lparr>COP := 3.4\<rparr>]" "''Main Pump''" "98.1" "''CT Unit 1''" "5 / 7"]
        recommendation_threshold [of "chiller_100 ''c2''\<lparr>COP := 3.5\<rparr>"]
  by (simp add: chiller_100_def)

section \<open>The two unit systems\<close>

text \<open>
  On the same widget values the I-P branch divides \<open>cap * 12000\<close> by
  \<open>power_in * 1000\<close> and then by 3.412, so its COP is the SI branch's COP times
  \<open>12 / 3.412\<close>.
\<close>

lemma ip_cop_is_scaled_si_cop:
  "cap \<noteq> 0 \<Longrightarrow> power_in \<noteq> 0 \<Longrightarrow>
   \<exists>cop_si eer_si kw_si cop_ip eer_ip kw_ip.
     chiller_metrics SI cap power_in = Inr (cop_si, eer_si, kw_si)
     \<and> chiller_metrics I_P cap power_in = Inr (cop_ip, eer_ip, kw_ip)
     \<and> cop_ip = 12 / 3.412 * cop_si"
  by (simp add: chiller_metrics_def Let_def)

text \<open>
  Claim C3. The specification expects the COP of one chiller to agree between the SI and
  the I-P branch up to rounding error. On the default widget values (capacity 100,
  power 60, both labelled kW under either unit system) the SI branch gives 5/3, stored as
  1.67, and the I-P branch gives 20/3.412, stored as 5.86: they differ by more than 4.
\<close>

theorem unit_system_cop_disagrees:
  "chiller_metrics SI 100 60 = Inr (5 / 3, 5 / 3 * 3.412, 2.1)
   \<and> chiller_metrics I_P 100 60 = Inr (20 / 3.412, 20, 0.6)
   \<and> chiller_loop SI [(''Chiller 1'', 100, 60)] []
       = Inr [\<lparr>Name = ''Chiller 1'', Capacity = 100, Power = 60,
               COP = 1.67, EER = 5.69, kW_Ton = 2.1\<rparr>]
   \<and> chiller_loop I_P [(''Chiller 1'', 100, 60)] []
       = Inr [\<lparr>Name = ''Chiller 1'', Capacity = 100, Power = 60,
               COP = 5.86, EER = 20, kW_Ton = 0.6\<rparr>]
   \<and> \<bar>20 / 3.412 - 5 / (3::real)\<bar> > 4"
  by (simp add: chiller_metrics_def chiller_entry_def py_round_def round_half_even_def Let_def)

section \<open>Where rounding happens\<close>

lemma chiller_loop_entries:
  "chiller_loop us ins acc = Inr cd \<Longrightarrow>
   \<exists>ms. length ms = length ins
      \<and> list_all2 (\<lambda>inp m. chiller_metrics us (fst (snd inp)) (snd (snd inp)) = Inr m) ins ms
      \<and> cd = acc @ map (\<lambda>(inp, m). chiller_entry (fst inp) (fst (snd inp)) (snd (snd inp)) m)
                     (zip ins ms)"
proof (induction ins arbitrary: acc)
  case Nil
  then show ?case by simp
next
  case (Cons inp ins)
  obtain name cap power_in where inp: "inp = (name, cap, power_in)" by (cases inp) auto
  from Cons.prems obtain m where m: "chiller_metrics us cap power_in = Inr m"
    and rest: "chiller_loop us ins (acc @ [chiller_entry name cap power_in m]) = Inr cd"
    by (auto simp: inp split: sum.splits)
  from Cons.IH [OF rest] obtain ms where ms: "length ms = length ins"
    "list_all2 (\<lambda>inp m. chiller_metrics us (fst (snd inp)) (snd (snd inp)) = Inr m) ins ms"
    "cd = (acc @ [chiller_entry name cap power_in m])
          @ map (\<lambda>(inp, m). chiller_entry (fst inp) (fst (snd inp)) (snd (snd inp)) m) (zip ins ms)"
    by blast
  show ?case
    by (rule exI [of _ "m # ms"]) (simp add: ms inp m)
qed

lemma spec_allocate_prefix:
  "length (fst (spec_allocate r cs)) \<le> length cs
   \<and> list_all2 (\<lambda>entry c. fst entry = Name c \<and> snd (snd entry) = COP c)
        (fst (spec_allocate r cs)) (take (length (fst (spec_allocate r cs))) cs)"
  by (induction cs arbitrary: r) (simp_all add: Let_def)

text \<open>
  Claim C4, as stated, fails. With capacity 349.6 and power 100 under SI the COP is 3.496,
  which is below 3.5; the dictionary stores 3.5, so the recommendation is the efficient
  one, the sequencing rows carry 3.5 and the COP curve ends at 3.5, not at 3.496.
\<close>

theorem full_precision_counterexample:
  "chiller_metrics SI 349.6 100 = Inr (3.496, 11.928352, 3.5 / 3.496)
   \<and> chiller_loop SI [(''Chiller 1'', 349.6, 100)] []
       = Inr [\<lparr>Name = ''Chiller 1'', Capacity = 349.6, Power = 100,
               COP = 3.5, EER = 11.93, kW_Ton = 1\<rparr>]
   \<and> (3.496::real) < 3.5
   \<and> chiller_recommendation \<lparr>Name = ''Chiller 1'', Capacity = 349.6, Power = 100,
               COP = 3.5, EER = 11.93, kW_Ton = 1\<rparr>
       = info ''Chiller 1 is operating efficiently.''
   \<and> fst (allocate 300 [\<lparr>Name = ''Chiller 1'', Capacity = 349.6, Power = 100,
               COP = 3.5, EER = 11.93, kW_Ton = 1\<rparr>])
       = [(''Chiller 1'', 300, 3.5)]
   \<and> cop_vals \<lparr>Name = ''Chiller 1'', Capacity = 349.6, Power = 100,
               COP = 3.5, EER = 11.93, kW_Ton = 1\<rparr>
       = [3.2375, 3.325, 3.4125, 3.5]
   \<and> (3.5::real) \<noteq> 3.496"
  by (simp add: chiller_metrics_def chiller_entry_def py_round_def round_half_even_def Let_def
        chiller_recommendation_def allocate_def cop_vals_def)

text \<open>
  Claim C4, amended. The metric formulas compute with full precision, and the entry
  appended to \<^verbatim>\<open>chiller_data\<close> holds COP, EER and kW/Ton rounded to 2 decimals.
  Everything after that reads the entry: a chiller is warned about exactly when its
  rounded COP is below 3.5, the COP curve is the rounded COP times the derating factors,
  and each sequencing assignment carries the rounded COP of its chiller.
\<close>

theorem stored_metrics_are_rounded:
  assumes "chiller_loop us ins [] = Inr chiller_data"
  shows "length chiller_data = length ins
       \<and> (\<forall>i < length ins. \<exists>cop eer kw_per_ton.
            chiller_metrics us (fst (snd (ins ! i))) (snd (snd (ins ! i)))
              = Inr (cop, eer, kw_per_ton)
            \<and> (if us = I_P
                then cop = eer / 3.412 \<and> kw_per_ton = snd (snd (ins ! i)) / fst (snd (ins ! i))
                else cop = fst (snd (ins ! i)) / snd (snd (ins ! i))
                     \<and> eer = cop * 3.412 \<and> kw_per_ton = 3.5 / cop)
            \<and> COP (chiller_data ! i) = py_round cop 2
            \<and> EER (chiller_data ! i) = py_round eer 2
            \<and> kW_Ton (chiller_data ! i) = py_round kw_per_ton 2
            \<and> ((\<exists>text. chiller_recommendation (chiller_data ! i) = warning text)
                 \<longleftrightarrow> py_round cop 2 < 3.5)
            \<and> cop_vals (chiller_data ! i)
                = map (\<lambda>l. py_round cop 2 * (1 - 0.1 * (1 - l / 100))) [25, 50, 75, 100])
       \<and> (\<forall>i < length (fst (allocate load chiller_data)).
            snd (snd (fst (allocate load chiller_data) ! i)) = COP (chiller_data ! i))"
proof -
  from chiller_loop_entries [OF assms] obtain ms where ms: "length ms = length ins"
    "list_all2 (\<lambda>inp m. chiller_metrics us (fst (snd inp)) (snd (snd inp)) = Inr m) ins ms"
    "chiller_data = map (\<lambda>(inp, m). chiller_entry (fst inp) (fst (snd inp)) (snd (snd inp)) m)
                     (zip ins ms)"
    by auto
  have len: "length chiller_data = length ins" by (simp add: ms)
  have each: "\<exists>cop eer kw_per_ton.
            chiller_metrics us (fst (snd (ins ! i))) (snd (snd (ins ! i)))
              = Inr (cop, eer, kw_per_ton)
            \<and> (if us = I_P
                then cop = eer / 3.412 \<and> kw_per_ton = snd (snd (ins ! i)) / fst (snd (ins ! i))
                else cop = fst (snd (ins ! i)) / snd (snd (ins ! i))
                     \<and> eer = cop * 3.412 \<and> kw_per_ton = 3.5 / cop)
            \<and> COP (chiller_data ! i) = py_round cop 2
            \<and> EER (chiller_data ! i) = py_round eer 2
            \<and> kW_Ton (chiller_data ! i) = py_round kw_per_ton 2
            \<and> ((\<exists>text. chiller_recommendation (chiller_data ! i) = warning text)
                 \<longleftrightarrow> py_round cop 2 < 3.5)
            \<and> cop_vals (chiller_data ! i)
                = map (\<lambda>l. py_round cop 2 * (1 - 0.1 * (1 - l / 100))) [25, 50, 75, 100]"
    if i: "i < length ins" for i
  proof -
    obtain cop eer kw_per_ton where m: "ms ! i = (cop, eer, kw_per_ton)"
      by (cases "ms ! i") auto
    from ms(2) i
    have "chiller_metrics us (fst (snd (ins ! i))) (snd (snd (ins ! i))) = Inr (ms ! i)"
      by (simp add: list_all2_conv_all_nth)
    then have metrics: "chiller_metrics us (fst (snd (ins ! i))) (snd (snd (ins ! i)))
        = Inr (cop, eer, kw_per_ton)"
      by (simp add: m)
    then have formulas: "if us = I_P
        then cop = eer / 3.412 \<and> kw_per_ton = snd (snd (ins ! i)) / fst (snd (ins ! i))
        else cop = fst (snd (ins ! i)) / snd (snd (ins ! i))
             \<and> eer = cop * 3.412 \<and> kw_per_ton = 3.5 / cop"
      by (auto simp: chiller_metrics_def Let_def split: if_splits)
    have "chiller_data ! i
        = chiller_entry (fst (ins ! i)) (fst (snd (ins ! i))) (snd (snd (ins ! i))) (ms ! i)"
      using i ms(1) by (simp add: ms(3))
    then have entry: "COP (chiller_data ! i) = py_round cop 2"
      "EER (chiller_data ! i) = py_round eer 2"
      "kW_Ton (chiller_data ! i) = py_round kw_per_ton 2"
      by (simp_all add: m chiller_entry_def)
    from metrics formulas entry show ?thesis
      by (simp add: chiller_recommendation_def cop_vals_def)
  qed
  have seq: "snd (snd (fst (allocate load chiller_data) ! i)) = COP (chiller_data ! i)"
    if "i < length (fst (allocate load chiller_data))" for i
    using that spec_allocate_prefix [of load chiller_data]
    by (simp add: allocate_spec list_all2_conv_all_nth)
  from len each seq show ?thesis by blast
qed

theorem stored_metrics_are_rounded_witness:
  "chiller_loop SI [(''Chiller 1'', 349.6, 100)] []
     = Inr [\<lparr>Name = ''Chiller 1'', Capacity = 349.6, Power = 100,
             COP = 3.5, EER = 11.93, kW_Ton = 1\<rparr>]
   \<and> (0::nat) < length [(''Chiller 1'', 349.6::real, 100::real)]
   \<and> (0::nat) < length (fst (allocate 300 [\<lparr>Name = ''Chiller 1'', Capacity = 349.6,
             Power = 100, COP = 3.5, EER = 11.93, kW_Ton = 1\<rparr>]))
   \<and> snd (snd (fst (allocate 300 [\<lparr>Name = ''Chiller 1'', Capacity = 349.6,
             Power = 100, COP = 3.5, EER = 11.93, kW_Ton = 1\<rparr>]) ! 0)) = py_round 3.496 2"
proof -
  have run: "chiller_loop SI [(''Chiller 1'', 349.6, 100)] []
     = Inr [\<lparr>Name = ''Chiller 1'', Capacity = 349.6, Power = 100,
             COP = 3.5, EER = 11.93, kW_Ton = 1\<rparr>]"
    by (simp add: chiller_metrics_def chiller_entry_def py_round_def round_half_even_def Let_def)
  have r: "py_round 3.496 2 = 3.5"
    by (simp add: py_round_def round_half_even_def Let_def)
  from stored_metrics_are_rounded [OF run, of 300] run r show ?thesis
    by (simp add: allocate_def)
qed

section \<open>A pass and the pass after it\<close>

text \<open>
  Every timestamp index of the sequencing loop is in range, so the loop raises nothing,
  and a pass whose three divisions are defined completes with one row per profile point.
\<close>

lemma sequencing_rows_map:
  "\<forall>row\<in>set rows. fst row < length ts \<Longrightarrow>
   sequencing_rows cd ts rows
     = Inr (map (\<lambda>row. (ts ! fst row, snd row, fst (allocate (snd row) cd))) rows)"
  by (induction rows) (auto simp: Let_def)

lemma sequencing_rows_enumerate:
  "length prof \<le> length ts \<Longrightarrow>
   sequencing_rows cd ts (enumerate 0 prof)
     = Inr (map (\<lambda>row. (ts ! fst row, snd row, fst (allocate (snd row) cd))) (enumerate 0 prof))"
  by (rule sequencing_rows_map) (auto simp: in_set_enumerate_eq)

lemma run_script_Inr:
  assumes "chiller_loop (w_unit_system w) (w_chillers w) [] = Inr cd"
    and "pump_efficiency (w_unit_system w) (w_flow w) (w_head w) (w_pump_power w) = Inr pump_eff"
    and "cooling_tower (w_cw_in w) (w_cw_out w) (w_wet_bulb w) = Inr tower"
  shows "\<exists>out. run_script w vars = Inr (out,
            \<lparr>chiller_data_var = cd,
             timestamps_var = fst (simulate_profile (w_base_load w) (w_ambient_temp w)),
             profile_var = snd (simulate_profile (w_base_load w) (w_ambient_temp w))\<rparr>)
          \<and> o_rows out = map (\<lambda>row. (fst (simulate_profile (w_base_load w) (w_ambient_temp w)) ! fst row,
                                      snd row, fst (allocate (snd row) cd)))
                           (enumerate 0 (snd (simulate_profile (w_base_load w) (w_ambient_temp w))))"
proof -
  have len: "length (snd (simulate_profile (w_base_load w) (w_ambient_temp w)))
             \<le> length (fst (simulate_profile (w_base_load w) (w_ambient_temp w)))"
    by (simp add: simulate_profile_def profile_loop_map del: upt_Suc)
  show ?thesis
    unfolding run_script_def
    by (cases vars) (simp add: assms Let_def sequencing_rows_enumerate [OF len]
          simulate_profile_def [symmetric] del: upt_Suc)
qed

text \<open>
  Claim C9. A pass is a function of the widget values alone: whatever the list variables
  held before, it gives the same result, so a second pass on the same widgets, started
  from the variables the first pass left, shows the same rows (and leaves the same
  variables).
\<close>

theorem pass_has_no_hidden_state:
  "run_script w vars = run_script w vars'
   \<and> (\<forall>out vars1. run_script w vars = Inr (out, vars1) \<longrightarrow>
         run_script w vars1 = Inr (out, vars1))"
proof -
  have indep: "run_script w v = run_script w v'" for v v'
    unfolding run_script_def
    by (cases v; cases v') (simp add: Let_def split: sum.splits)
  then show ?thesis by metis
qed

theorem pass_has_no_hidden_state_witness:
  "\<exists>out vars1.
     run_script default_widgets
       \<lparr>chiller_data_var = [], timestamps_var = [], profile_var = []\<rparr> = Inr (out, vars1)
     \<and> run_script default_widgets vars1 = Inr (out, vars1)
     \<and> length (o_rows out) = 24"
proof -
  let ?v0 = "\<lparr>chiller_data_var = [], timestamps_var = [], profile_var = []\<rparr>"
  have c: "chiller_loop (w_unit_system default_widgets) (w_chillers default_widgets) []
           = Inr [chiller_100 ''Chiller 1'', chiller_100 ''Chiller 2'']"
    by (simp add: default_widgets_def chiller_metrics_def chiller_entry_def chiller_100_def
          py_round_def round_half_even_def Let_def)
  have p: "pump_efficiency (w_unit_system default_widgets) (w_flow default_widgets)
             (w_head default_widgets) (w_pump_power default_widgets) = Inr 98.1"
    by (simp add: default_widgets_def pump_efficiency_def Let_def)
  have t: "cooling_tower (w_cw_in default_widgets) (w_cw_out default_widgets)
             (w_wet_bulb default_widgets) = Inr (5, 2, 5 / 7)"
    by (simp add: default_widgets_def cooling_tower_def Let_def)
  from run_script_Inr [OF c p t, of ?v0] obtain out vars1
    where first: "run_script default_widgets ?v0 = Inr (out, vars1)"
      and rows: "length (o_rows out) = 24"
    by (auto simp: simulate_profile_def profile_loop_map simp del: upt_Suc)
  from pass_has_no_hidden_state [of default_widgets ?v0] first
  have "run_script default_widgets vars1 = Inr (out, vars1)" by blast
  with first rows show ?thesis by blast
qed

section \<open>Rounding to the nearest double\<close>

text \<open>
  How \<open>fl\<close> is evaluated once the exponent is known, its symmetry, and how far it can move
  a value: not across a power of two, and to 0 only from at most 2 to the power -1075.
\<close>

lemma floor_log2_eq:
  assumes "2 powi e \<le> \<bar>x\<bar>" and "\<bar>x\<bar> < 2 powi (e + 1)"
  shows "\<lfloor>log 2 \<bar>x\<bar>\<rfloor> = e"
proof -
  have "0 < (2::real) powi e" by simp
  with assms(1) have pos: "0 < \<bar>x\<bar>" by linarith
  have a: "2 powr (real_of_int e) = 2 powi e"
    by (rule powr_real_of_int') simp_all
  have "2 powr (real_of_int (e + 1)) = 2 powi (e + 1)"
    by (rule powr_real_of_int') simp_all
  then have b: "2 powr (real_of_int e + 1) = 2 powi (e + 1)"
    by simp
  have "2 powr (real_of_int e) \<le> \<bar>x\<bar> \<and> \<bar>x\<bar> < 2 powr (real_of_int e + 1)"
    using assms by (simp only: a b simp_thms)
  with pos show ?thesis by (simp add: floor_log_eq_powr_iff)
qed

lemma floor_log2_bounds:
  assumes "x \<noteq> 0"
  shows "2 powi \<lfloor>log 2 \<bar>x\<bar>\<rfloor> \<le> \<bar>x\<bar> \<and> \<bar>x\<bar> < 2 powi (\<lfloor>log 2 \<bar>x\<bar>\<rfloor> + 1)"
proof -
  let ?e = "\<lfloor>log 2 \<bar>x\<bar>\<rfloor>"
  from assms have pos: "0 < \<bar>x\<bar>" by simp
  have a: "2 powr (real_of_int ?e) = 2 powi ?e"
    by (rule powr_real_of_int') simp_all
  have "2 powr (real_of_int (?e + 1)) = 2 powi (?e + 1)"
    by (rule powr_real_of_int') simp_all
  then have b: "2 powr (real_of_int ?e + 1) = 2 powi (?e + 1)"
    by simp
  have "2 powr (real_of_int ?e) \<le> \<bar>x\<bar> \<and> \<bar>x\<bar> < 2 powr (real_of_int ?e + 1)"
    using floor_log_eq_powr_iff [of "\<bar>x\<bar>" 2 ?e] pos by simp
  then show ?thesis by (simp only: a b)
qed

lemma fl_normal:
  assumes "2 powi e \<le> \<bar>x\<bar>" and "\<bar>x\<bar> < 2 powi (e + 1)" and "- 1022 \<le> e"
  shows "fl x = of_int (round_half_even (x / 2 powi (e - 52))) * 2 powi (e - 52)"
  using assms(3) by (simp add: fl_def Let_def floor_log2_eq [OF assms(1,2)] max_def)

lemma fl_subnormal:
  assumes "\<bar>x\<bar> < 2 powi (- 1022)"
  shows "fl x = of_int (round_half_even (x / 2 powi (- 1074))) * 2 powi (- 1074)"
proof (cases "x = 0")
  case True
  then show ?thesis by (simp add: fl_def Let_def round_half_even_def)
next
  case False
  have "\<lfloor>log 2 \<bar>x\<bar>\<rfloor> < - 1022"
  proof (rule ccontr)
    assume "\<not> \<lfloor>log 2 \<bar>x\<bar>\<rfloor> < - 1022"
    then have "(2::real) powi (- 1022) \<le> 2 powi \<lfloor>log 2 \<bar>x\<bar>\<rfloor>"
      by (intro power_int_increasing) simp_all
    with floor_log2_bounds [OF False] assms show False by linarith
  qed
  then show ?thesis by (simp add: fl_def Let_def max_def)
qed

lemma fl_zero: "fl 0 = 0"
  by (simp add: fl_def Let_def round_half_even_def)

lemma round_half_even_minus: "round_half_even (- y) = - round_half_even y"
proof (cases "y \<in> \<int>")
  case True
  then obtain k where "y = of_int k" by (auto elim: Ints_cases)
  then show ?thesis
    by (simp add: round_half_even_of_int flip: of_int_minus)
next
  case False
  then have "of_int \<lfloor>y\<rfloor> \<noteq> y" by (metis Ints_of_int)
  then have lo: "of_int \<lfloor>y\<rfloor> < y" and hi: "y < of_int \<lfloor>y\<rfloor> + 1" by linarith+
  have fl: "\<lfloor>- y\<rfloor> = - \<lfloor>y\<rfloor> - 1"
  proof (rule floor_unique)
    show "of_int (- \<lfloor>y\<rfloor> - 1) \<le> - y" using hi by simp linarith
    show "- y < of_int (- \<lfloor>y\<rfloor> - 1) + 1" using lo by simp
  qed
  show ?thesis
    unfolding round_half_even_def Let_def fl by (auto simp: algebra_simps)
qed

lemma fl_minus: "fl (- x) = - fl x"
  by (simp add: fl_def Let_def round_half_even_minus)

lemma round_half_even_le: "y \<le> of_int N \<Longrightarrow> round_half_even y \<le> N"
proof -
  assume le: "y \<le> of_int N"
  then have f: "\<lfloor>y\<rfloor> \<le> N" by (simp add: floor_le_iff)
  show ?thesis
  proof (cases "y - of_int \<lfloor>y\<rfloor> < 1 / 2")
    case True
    with f show ?thesis by (simp add: round_half_even_def Let_def)
  next
    case False
    then have "of_int \<lfloor>y\<rfloor> < y" by linarith
    with le have "of_int \<lfloor>y\<rfloor> < (of_int N :: real)" by linarith
    then have "\<lfloor>y\<rfloor> + 1 \<le> N" by simp
    with f show ?thesis by (simp add: round_half_even_def Let_def)
  qed
qed

lemma round_half_even_ge: "of_int N \<le> y \<Longrightarrow> N \<le> round_half_even y"
proof -
  assume "of_int N \<le> y"
  then have "N \<le> \<lfloor>y\<rfloor>" by (simp add: le_floor_iff)
  then show ?thesis
    unfolding round_half_even_def Let_def by auto
qed

lemma fl_nonneg: "0 \<le> x \<Longrightarrow> 0 \<le> fl x"
  using round_half_even_ge [of 0] by (simp add: fl_def Let_def)

lemma fl_abs: "\<bar>fl x\<bar> = fl \<bar>x\<bar>"
proof (cases "0 \<le> x")
  case True
  then show ?thesis using fl_nonneg [of x] by simp
next
  case False
  then have "0 \<le> - x" by simp
  from fl_nonneg [OF this] False show ?thesis by (simp add: fl_minus)
qed

lemma pow2_exponent_le: "(2::real) powi a \<le> 2 powi b \<Longrightarrow> a \<le> b"
proof (rule ccontr)
  assume le: "(2::real) powi a \<le> 2 powi b" and "\<not> a \<le> b"
  then have "(2::real) powi b < 2 powi a"
    by (intro power_int_strict_increasing) simp_all
  with le show False by simp
qed

lemma fl_le_pow2:
  assumes "\<bar>x\<bar> \<le> 2 powi m" and "- 1022 \<le> m"
  shows "\<bar>fl x\<bar> \<le> 2 powi m"
proof (cases "x = 0")
  case True
  then show ?thesis by (simp add: fl_zero)
next
  case False
  define e where "e = max \<lfloor>log 2 \<bar>x\<bar>\<rfloor> (- 1022)"
  from floor_log2_bounds [OF False] assms(1)
  have "(2::real) powi \<lfloor>log 2 \<bar>x\<bar>\<rfloor> \<le> 2 powi m" by linarith
  then have "\<lfloor>log 2 \<bar>x\<bar>\<rfloor> \<le> m" by (rule pow2_exponent_le)
  with assms(2) have em: "e \<le> m" by (simp add: e_def)
  define n where "n = nat (m - e + 52)"
  have n: "(2::real) ^ n = 2 powi (m - e + 52)"
    using em by (simp add: n_def power_int_def)
  have "\<bar>x\<bar> / 2 powi (e - 52) \<le> 2 powi m / 2 powi (e - 52)"
    using assms(1) by (simp add: divide_right_mono)
  also have "\<dots> = 2 powi (m - (e - 52))"
    by (simp add: power_int_diff)
  also have "\<dots> = of_int (2 ^ n)"
    by (simp add: n algebra_simps)
  finally have "round_half_even (\<bar>x\<bar> / 2 powi (e - 52)) \<le> 2 ^ n"
    by (rule round_half_even_le)
  then have "real_of_int (round_half_even (\<bar>x\<bar> / 2 powi (e - 52))) \<le> 2 ^ n"
    by (metis of_int_le_iff of_int_numeral of_int_power)
  then have "real_of_int (round_half_even (\<bar>x\<bar> / 2 powi (e - 52))) * 2 powi (e - 52)
             \<le> 2 powi (m - e + 52) * 2 powi (e - 52)"
    by (simp add: n mult_right_mono)
  also have "\<dots> = 2 powi m"
    by (simp flip: power_int_add)
  finally have "fl \<bar>x\<bar> \<le> 2 powi m"
    by (simp add: fl_def Let_def e_def)
  then show ?thesis by (simp add: fl_abs)
qed

lemma fl_ge_pow2:
  assumes "2 powi m \<le> \<bar>x\<bar>" and "- 1022 \<le> m"
  shows "2 powi m \<le> \<bar>fl x\<bar>"
proof -
  have "0 < (2::real) powi m" by simp
  with assms(1) have "0 < \<bar>x\<bar>" by linarith
  then have nz: "x \<noteq> 0" by simp
  define e where "e = \<lfloor>log 2 \<bar>x\<bar>\<rfloor>"
  from floor_log2_bounds [OF nz]
  have lo: "2 powi e \<le> \<bar>x\<bar>" and hi: "\<bar>x\<bar> < 2 powi (e + 1)" by (simp_all add: e_def)
  from assms(1) hi have "(2::real) powi m \<le> 2 powi (e + 1)" by linarith
  then have "m \<le> e + 1" by (rule pow2_exponent_le)
  moreover have "m \<noteq> e + 1" using assms(1) hi by auto
  ultimately have me: "m \<le> e" by simp
  with assms(2) have e: "- 1022 \<le> e" by simp
  have "(2::real) powi e / 2 powi (e - 52) \<le> \<bar>x\<bar> / 2 powi (e - 52)"
    using lo by (simp add: divide_right_mono)
  moreover have "(2::real) powi e / 2 powi (e - 52) = of_int (2 ^ 52)"
    by (simp flip: power_int_diff)
  ultimately have "2 ^ 52 \<le> round_half_even (\<bar>x\<bar> / 2 powi (e - 52))"
    by (intro round_half_even_ge) simp
  then have "(2::real) ^ 52 \<le> real_of_int (round_half_even (\<bar>x\<bar> / 2 powi (e - 52)))"
    by (metis of_int_le_iff of_int_numeral of_int_power)
  then have a: "(2::real) ^ 52 * 2 powi (e - 52)
             \<le> real_of_int (round_half_even (\<bar>x\<bar> / 2 powi (e - 52))) * 2 powi (e - 52)"
    by (simp add: mult_right_mono)
  have b: "(2::real) ^ 52 * 2 powi (e - 52) = 2 powi e"
    using power_int_add [of "2::real" 52 "e - 52"] by simp
  have c: "fl \<bar>x\<bar> = real_of_int (round_half_even (\<bar>x\<bar> / 2 powi (e - 52))) * 2 powi (e - 52)"
    using fl_normal [of e "\<bar>x\<bar>"] lo hi e by simp
  have "2 powi e \<le> fl \<bar>x\<bar>"
    unfolding c b [symmetric] by (rule a)
  moreover have "(2::real) powi m \<le> 2 powi e"
    using me by (intro power_int_increasing) simp_all
  ultimately show ?thesis by (simp add: fl_abs)
qed

lemma round_half_even_zero_iff:
  assumes "0 < y"
  shows "round_half_even y = 0 \<longleftrightarrow> y \<le> 1 / 2"
proof (cases "\<lfloor>y\<rfloor> = 0")
  case True
  then show ?thesis unfolding round_half_even_def Let_def by auto
next
  case False
  from assms have "0 \<le> \<lfloor>y\<rfloor>" by simp
  with False have f: "1 \<le> \<lfloor>y\<rfloor>" by linarith
  then have "(1::real) \<le> of_int \<lfloor>y\<rfloor>" by simp
  then have "1 \<le> y" using of_int_floor_le [of y] by linarith
  moreover have "1 \<le> round_half_even y"
    using f unfolding round_half_even_def Let_def by auto
  ultimately show ?thesis by auto
qed

lemma fl_underflow_iff:
  assumes "0 < x"
  shows "fl x = 0 \<longleftrightarrow> x \<le> 2 powi (- 1075)"
proof (cases "x < 2 powi (- 1022)")
  case False
  then have "2 powi (- 1022) \<le> \<bar>x\<bar>" using assms by simp
  from fl_ge_pow2 [OF this] have "0 < \<bar>fl x\<bar>"
    using zero_less_power_int [of "2::real" "- 1022"] by linarith
  then have "fl x \<noteq> 0" by simp
  moreover have "(2::real) powi (- 1075) < 2 powi (- 1022)"
    by (intro power_int_strict_increasing) simp_all
  ultimately show ?thesis using False by auto
next
  case True
  define q :: real where "q = 2 powi (- 1074)"
  have q: "0 < q" by (simp add: q_def)
  have half: "2 powi (- 1075) = q / 2"
    using power_int_add [of "2::real" "- 1074" "- 1"] by (simp add: q_def)
  have y: "x / q \<le> 1 / 2 \<longleftrightarrow> x \<le> q / 2"
    using q by (simp add: field_simps)
  have ypos: "0 < x / q" using assms q by simp
  have "fl x = of_int (round_half_even (x / q)) * q"
    using fl_subnormal [of x] True assms by (simp add: q_def)
  then have "fl x = 0 \<longleftrightarrow> round_half_even (x / q) = 0"
    using q by simp
  with round_half_even_zero_iff [OF ypos] y show ?thesis
    by (simp only: half)
qed

lemma to_double_Inr: "to_double x = Inr y \<longleftrightarrow> \<bar>fl x\<bar> < 2 ^ 1024 \<and> y = fl x"
  by (auto simp: to_double_def)

lemma to_double_Inl: "to_double x = Inl out \<longleftrightarrow> \<not> \<bar>fl x\<bar> < 2 ^ 1024 \<and> out = NonFinite"
  by (auto simp: to_double_def)

lemma to_double_zero: "to_double 0 = Inr 0"
  by (simp add: to_double_def fl_zero)

section \<open>The cooling tower in double arithmetic\<close>












section \<open>The SI metrics in double arithmetic\<close>

text \<open>
  When the three divisions and the product are defined and finite, and what the default
  widget values (capacity 100, power 60) and the quotient 271/200 give.
\<close>

lemma to_double_finite:
  assumes "\<bar>x\<bar> \<le> 2 powi m" and "- 1022 \<le> m" and "m < 1024"
  shows "to_double x = Inr (fl x)"
proof -
  have "\<bar>fl x\<bar> \<le> 2 powi m" using assms(1,2) by (rule fl_le_pow2)
  also have "(2::real) powi m < 2 powi 1024"
    using assms(3) by (intro power_int_strict_increasing) simp_all
  finally show ?thesis by (simp add: to_double_def)
qed

lemma py_round_2_le_pow2:
  assumes "\<bar>x\<bar> \<le> 2 powi m" and "0 \<le> m"
  shows "\<bar>py_round x 2\<bar> \<le> 2 powi (m + 1)"
proof -
  have "(1::real) \<le> 2 powi m"
    using assms(2) by (intro one_le_power_int) simp_all
  moreover have "\<bar>py_round x 2\<bar> \<le> \<bar>x\<bar> + 1 / 200"
    using py_round_2_near [of x] by linarith
  moreover have "(2::real) powi (m + 1) = 2 * 2 powi m"
    by (simp add: power_int_add)
  ultimately show ?thesis using assms(1) by linarith
qed

lemma si_metrics_double_raises:
  assumes "0 < cap" and "0 < power_in"
  shows "si_metrics_double cap power_in = Inl (Raises ZeroDivisionError)
         \<longleftrightarrow> cap / power_in \<le> 2 powi (- 1075)"
proof -
  have pos: "0 < cap / power_in" using assms by simp
  have "si_metrics_double cap power_in = Inl (Raises ZeroDivisionError)
         \<longleftrightarrow> fl (cap / power_in) = 0"
    using assms(2)
    by (auto simp: si_metrics_double_def to_double_def fl_zero split: sum.splits)
  with fl_underflow_iff [OF pos] show ?thesis by simp
qed

lemma si_metrics_double_Inr:
  assumes "si_metrics_double cap power_in = Inr (cop, eer, kw_per_ton)"
  shows "power_in \<noteq> 0 \<and> cop = fl (cap / power_in) \<and> cop \<noteq> 0
         \<and> eer = fl (cop * fl 3.412) \<and> kw_per_ton = fl (3.5 / cop)"
  using assms
  by (auto simp: si_metrics_double_def to_double_def split: if_splits sum.splits)

lemma si_chiller_double_total:
  assumes "2 powi (- 1000) \<le> cap / power_in" and "cap / power_in \<le> 2 powi 1000"
  shows "\<exists>c. si_chiller_double name cap power_in = Inr c"
proof -
  let ?x = "cap / power_in"
  have xpos: "0 < ?x"
    using assms(1) zero_less_power_int [of "2::real" "- 1000"] by linarith
  then have nz: "power_in \<noteq> 0" by auto
  have xabs: "\<bar>?x\<bar> = ?x" using xpos by (rule abs_of_pos)
  define cop where "cop = fl ?x"
  have cop_hi: "\<bar>cop\<bar> \<le> 2 powi 1000"
    unfolding cop_def using assms(2) xabs by (intro fl_le_pow2) simp_all
  have cop_lo: "2 powi (- 1000) \<le> \<bar>cop\<bar>"
    unfolding cop_def using assms(1) xabs by (intro fl_ge_pow2) simp_all
  have cop_pos: "0 < \<bar>cop\<bar>"
    using cop_lo zero_less_power_int [of "2::real" "- 1000"] by linarith
  then have cop_nz: "cop \<noteq> 0" by simp
  have d1: "to_double ?x = Inr cop"
    unfolding cop_def using assms(2) xabs by (intro to_double_finite [of _ 1000]) simp_all
  have k: "\<bar>fl 3.412\<bar> \<le> 2 powi 2"
    by (rule fl_le_pow2) simp_all
  define eer where "eer = fl (cop * fl 3.412)"
  have "\<bar>cop * fl 3.412\<bar> \<le> 2 powi 1000 * 2 powi 2"
    unfolding abs_mult using cop_hi k by (intro mult_mono) simp_all
  also have "\<dots> = 2 powi 1002" by (simp flip: power_int_add)
  finally have e_arg: "\<bar>cop * fl 3.412\<bar> \<le> 2 powi 1002" .
  then have d2: "to_double (cop * fl 3.412) = Inr eer"
    unfolding eer_def by (intro to_double_finite [of _ 1002]) simp_all
  have eer_hi: "\<bar>eer\<bar> \<le> 2 powi 1002"
    unfolding eer_def using e_arg by (intro fl_le_pow2) simp_all
  define kw where "kw = fl (3.5 / cop)"
  have "\<bar>3.5 / cop\<bar> = 3.5 / \<bar>cop\<bar>" by simp
  also have "\<dots> \<le> 3.5 / 2 powi (- 1000)"
    using cop_lo by (intro divide_left_mono mult_pos_pos cop_pos) simp_all
  also have "\<dots> \<le> 2 powi 2 / 2 powi (- 1000)"
    by (intro divide_right_mono) simp_all
  also have "\<dots> = 2 powi 1002" by (simp flip: power_int_diff)
  finally have k_arg: "\<bar>3.5 / cop\<bar> \<le> 2 powi 1002" .
  then have d3: "to_double (3.5 / cop) = Inr kw"
    unfolding kw_def by (intro to_double_finite [of _ 1002]) simp_all
  have kw_hi: "\<bar>kw\<bar> \<le> 2 powi 1002"
    unfolding kw_def using k_arg by (intro fl_le_pow2) simp_all
  have m: "si_metrics_double cap power_in = Inr (cop, eer, kw)"
    by (simp only: si_metrics_double_def nz d1 d2 d3 cop_nz if_False sum.case)
  have big: "(2::real) powi 1000 \<le> 2 powi 1002"
    by (intro power_int_increasing) simp_all
  have r1: "to_double (py_round cop 2) = Inr (fl (py_round cop 2))"
    using py_round_2_le_pow2 [of cop 1002] cop_hi big
    by (intro to_double_finite [of _ 1003]) simp_all
  have r2: "to_double (py_round eer 2) = Inr (fl (py_round eer 2))"
    using py_round_2_le_pow2 [of eer 1002] eer_hi
    by (intro to_double_finite [of _ 1003]) simp_all
  have r3: "to_double (py_round kw 2) = Inr (fl (py_round kw 2))"
    using py_round_2_le_pow2 [of kw 1002] kw_hi
    by (intro to_double_finite [of _ 1003]) simp_all
  show ?thesis
    by (simp add: si_chiller_double_def m r1 r2 r3)
qed

lemma fl_cop_default: "fl (100 / 60) = (7505999378950827 / 2 ^ 52)"
  by (subst fl_normal [of 0]) (simp_all add: round_half_even_def Let_def)

lemma fl_3412: "fl 3.412 = (3841570482147033 / 2 ^ 50)"
  by (subst fl_normal [of 1]) (simp_all add: round_half_even_def Let_def)

lemma fl_eer_default: "fl ((7505999378950827 / 2 ^ 52) * (3841570482147033 / 2 ^ 50)) = (6402617470245055 / 2 ^ 50)"
  by (subst fl_normal [of 2]) (simp_all add: round_half_even_def Let_def)

lemma fl_kw_default: "fl (3.5 / (7505999378950827 / 2 ^ 52)) = (4728779608739021 / 2 ^ 51)"
  by (subst fl_normal [of 1]) (simp_all add: round_half_even_def Let_def)

lemma py_round_default:
  "py_round (7505999378950827 / 2 ^ 52) 2 = 1.67" "py_round (6402617470245055 / 2 ^ 50) 2 = 5.69" "py_round (4728779608739021 / 2 ^ 51) 2 = 2.1"
  by (simp_all add: py_round_def round_half_even_def Let_def)

lemma to_double_small: "\<bar>x\<bar> \<le> 8 \<Longrightarrow> to_double x = Inr (fl x)"
  by (rule to_double_finite [of _ 3]) simp_all

lemma si_metrics_double_default:
  "si_metrics_double 100 60 = Inr ((7505999378950827 / 2 ^ 52), (6402617470245055 / 2 ^ 50), (4728779608739021 / 2 ^ 51))"
proof -
  have "\<bar>100 / 60\<bar> \<le> (8::real)" by simp
  then have "to_double (100 / 60) = Inr (fl (100 / 60))" by (rule to_double_small)
  then have d1: "to_double (100 / 60) = Inr (7505999378950827 / 2 ^ 52)"
    by (simp only: fl_cop_default)
  have "\<bar>(7505999378950827 / 2 ^ 52) * (3841570482147033 / 2 ^ 50)\<bar> \<le> (8::real)" by simp
  then have "to_double ((7505999378950827 / 2 ^ 52) * (3841570482147033 / 2 ^ 50)) = Inr (fl ((7505999378950827 / 2 ^ 52) * (3841570482147033 / 2 ^ 50)))"
    by (rule to_double_small)
  then have d2: "to_double ((7505999378950827 / 2 ^ 52) * fl 3.412) = Inr (6402617470245055 / 2 ^ 50)"
    by (simp only: fl_3412 fl_eer_default)
  have "\<bar>3.5 / (7505999378950827 / 2 ^ 52)\<bar> \<le> (8::real)" by simp
  then have "to_double (3.5 / (7505999378950827 / 2 ^ 52)) = Inr (fl (3.5 / (7505999378950827 / 2 ^ 52)))"
    by (rule to_double_small)
  then have d3: "to_double (3.5 / (7505999378950827 / 2 ^ 52)) = Inr (4728779608739021 / 2 ^ 51)"
    by (simp only: fl_kw_default)
  have nz: "((60::real) = 0) = False" "(((7505999378950827 / 2 ^ 52)::real) = 0) = False" by simp_all
  show ?thesis
    by (simp only: si_metrics_double_def nz d1 d2 d3 if_False sum.case)
qed

lemma si_chiller_double_default:
  "si_chiller_double ''Chiller 1'' 100 60
     = Inr \<lparr>Name = ''Chiller 1'', Capacity = 100, Power = 60,
            COP = fl 1.67, EER = fl 5.69, kW_Ton = fl 2.1\<rparr>"
proof -
  have r: "to_double 1.67 = Inr (fl 1.67)" "to_double 5.69 = Inr (fl 5.69)"
    "to_double 2.1 = Inr (fl 2.1)"
    by (rule to_double_small; simp)+
  show ?thesis
    by (simp only: si_chiller_double_def si_metrics_double_default py_round_default r
          sum.case prod.case)
qed

lemma fl_cop_tie: "fl (271 / 200) = (3051188747543511 / 2 ^ 51)"
  by (subst fl_normal [of 0]) (simp_all add: round_half_even_def Let_def)

lemma py_round_tie: "py_round (3051188747543511 / 2 ^ 51) 2 = 1.35"
  by (simp add: py_round_def round_half_even_def Let_def)

text \<open>
  Claim C6, as stated, fails: a positive capacity and a positive power input do not keep
  line 34 from dividing by zero. With capacity 2 to the power -600 and power input 2 to
  the power 600, both doubles, the quotient is 2 to the power -1200, which rounds to
  \<^verbatim>\<open>0.0\<close>, and \<^verbatim>\<open>3.5 / cop\<close> raises \<^verbatim>\<open>ZeroDivisionError\<close>.
\<close>

theorem quotient_underflows_to_zero:
  "(0::real) < 2 powi (- 600) \<and> (0::real) < 2 powi 600
   \<and> fl (2 powi (- 600)) = 2 powi (- 600) \<and> fl (2 powi 600) = 2 powi 600
   \<and> si_metrics_double (2 powi (- 600)) (2 powi 600) = Inl (Raises ZeroDivisionError)"
proof -
  have a: "fl (2 powi (- 600)) = 2 powi (- 600)"
    by (subst fl_normal [of "- 600"]) (simp_all add: round_half_even_def Let_def)
  have b: "fl (2 powi 600) = 2 powi 600"
    by (subst fl_normal [of 600]) (simp_all add: round_half_even_def Let_def)
  have "(2::real) powi (- 600) / 2 powi 600 = 2 powi (- 1200)"
    by (simp flip: power_int_diff)
  also have "\<dots> \<le> 2 powi (- 1075)"
    by (intro power_int_increasing) simp_all
  finally have "si_metrics_double (2 powi (- 600)) (2 powi 600) = Inl (Raises ZeroDivisionError)"
    by (subst si_metrics_double_raises) simp_all
  with a b show ?thesis by simp
qed

text \<open>
  Claim C6, amended. Under SI, for a capacity and a power input above 0, the computation
  raises \<^verbatim>\<open>ZeroDivisionError\<close> exactly when the quotient capacity / power is at most 2 to
  the power -1075, where it rounds to \<^verbatim>\<open>0.0\<close>. When it returns, \<open>cop\<close> is the quotient,
  \<open>eer\<close> is \<open>cop * 3.412\<close> and \<open>kw_per_ton\<close> is \<open>3.5 / cop\<close>, each rounded to the nearest
  double, and the entry holds each of them rounded to 2 decimals. It does return, with
  an entry, whenever the quotient lies between 2 to the power -1000 and 2 to the power
  1000.
\<close>

theorem si_metrics_double_rounded:
  assumes "0 < cap" and "0 < power_in"
  shows "(si_metrics_double cap power_in = Inl (Raises ZeroDivisionError)
            \<longleftrightarrow> cap / power_in \<le> 2 powi (- 1075))
       \<and> (\<forall>cop eer kw_per_ton.
             si_metrics_double cap power_in = Inr (cop, eer, kw_per_ton)
             \<longrightarrow> cop = fl (cap / power_in) \<and> cop \<noteq> 0
                 \<and> eer = fl (cop * fl 3.412) \<and> kw_per_ton = fl (3.5 / cop))
       \<and> (\<forall>c. si_chiller_double name cap power_in = Inr c
             \<longrightarrow> Name c = name \<and> Capacity c = cap \<and> Power c = power_in
                 \<and> (\<exists>cop eer kw_per_ton.
                        si_metrics_double cap power_in = Inr (cop, eer, kw_per_ton)
                        \<and> COP c = fl (py_round cop 2)
                        \<and> EER c = fl (py_round eer 2)
                        \<and> kW_Ton c = fl (py_round kw_per_ton 2)))
       \<and> (2 powi (- 1000) \<le> cap / power_in \<and> cap / power_in \<le> 2 powi 1000
             \<longrightarrow> (\<exists>c. si_chiller_double name cap power_in = Inr c))"
proof -
  have stored: "Name c = name \<and> Capacity c = cap \<and> Power c = power_in
                 \<and> (\<exists>cop eer kw_per_ton.
                        si_metrics_double cap power_in = Inr (cop, eer, kw_per_ton)
                        \<and> COP c = fl (py_round cop 2)
                        \<and> EER c = fl (py_round eer 2)
                        \<and> kW_Ton c = fl (py_round kw_per_ton 2))"
    if "si_chiller_double name cap power_in = Inr c" for c
    using that
    by (auto simp: si_chiller_double_def to_double_def split: sum.splits prod.splits if_splits)
  from si_metrics_double_raises [OF assms] si_metrics_double_Inr [of cap power_in]
    stored si_chiller_double_total [of cap power_in name]
  show ?thesis by blast
qed

theorem si_metrics_double_rounded_witness:
  "(0::real) < 100 \<and> (0::real) < 60
   \<and> si_chiller_double ''Chiller 1'' 100 60
       = Inr \<lparr>Name = ''Chiller 1'', Capacity = 100, Power = 60,
              COP = fl 1.67, EER = fl 5.69, kW_Ton = fl 2.1\<rparr>
   \<and> (\<exists>c. si_chiller_double ''Chiller 1'' 271 200 = Inr c \<and> COP c = fl 1.35)"
proof -
  have band: "2 powi (- 1000) \<le> (271::real) / 200 \<and> (271::real) / 200 \<le> 2 powi 1000"
    by simp
  from si_metrics_double_rounded [of 271 200 "''Chiller 1''"] band
  obtain c where c: "si_chiller_double ''Chiller 1'' 271 200 = Inr c"
    and stored: "\<exists>cop eer kw_per_ton.
                   si_metrics_double 271 200 = Inr (cop, eer, kw_per_ton)
                   \<and> COP c = fl (py_round cop 2)"
      and metrics: "\<forall>cop eer kw_per_ton.
             si_metrics_double 271 200 = Inr (cop, eer, kw_per_ton)
             \<longrightarrow> cop = fl (271 / 200)"
    by (simp (no_asm_use)) blast
  from stored metrics have "COP c = fl (py_round (fl (271 / 200)) 2)" by auto
  then have "COP c = fl 1.35"
    by (simp only: fl_cop_tie py_round_tie)
  with c si_chiller_double_default show ?thesis by simp
qed

end
